theory Spec2Isabelle
  imports Main
begin

section \<open>Python strings\<close>

text \<open>
  The tool \<^verbatim>\<open>tools/reachability-analysis/main.py\<close> reads lines with \<^verbatim>\<open>input\<close>, so
  every value it handles is a Python \<^verbatim>\<open>str\<close>: a sequence of Unicode code points. A code
  point is modelled as a natural number and a string as the list of its code points, so
  that equality, \<^verbatim>\<open>startswith\<close>, slicing and \<^verbatim>\<open>strip\<close> count what Python counts.
  \<open>lit\<close> turns an ASCII literal of the source into that representation.
\<close>

type_synonym pystr = "nat list"

definition lit :: "string \<Rightarrow> pystr" where
  "lit s = map of_char s"

text \<open>
  \<^verbatim>\<open>str.strip()\<close> without argument removes the characters for which \<^verbatim>\<open>str.isspace\<close>
  holds: U+0009..U+000D, U+001C..U+0020, U+0085, U+00A0, U+1680, U+2000..U+200A, U+2028,
  U+2029, U+202F, U+205F and U+3000.
\<close>

definition isspace :: "nat \<Rightarrow> bool" where
  "isspace c \<longleftrightarrow>
     (9 \<le> c \<and> c \<le> 13) \<or> (28 \<le> c \<and> c \<le> 32) \<or> c = 133 \<or> c = 160 \<or> c = 5760 \<or>
     (8192 \<le> c \<and> c \<le> 8202) \<or> c = 8232 \<or> c = 8233 \<or> c = 8239 \<or> c = 8287 \<or> c = 12288"

definition lstrip :: "pystr \<Rightarrow> pystr" where
  "lstrip s = dropWhile isspace s"

definition rstrip :: "pystr \<Rightarrow> pystr" where
  "rstrip s = rev (dropWhile isspace (rev s))"

definition strip :: "pystr \<Rightarrow> pystr" where
  "strip s = rstrip (lstrip s)"

definition startswith :: "pystr \<Rightarrow> pystr \<Rightarrow> bool" where
  "startswith s p \<longleftrightarrow> take (length p) s = p"

text \<open>The slice \<^verbatim>\<open>s[2:]\<close>; on a string shorter than two characters it is empty.\<close>

definition slice_from2 :: "pystr \<Rightarrow> pystr" where
  "slice_from2 s = drop 2 s"

definition PROMPT_MSG :: pystr where
  "PROMPT_MSG = lit ''Enter a node's name or 's {search term}' to search for one: ''"


text \<open>The f-string \<^verbatim>\<open>f"Cannot find a node named '{input_str}'"\<close>; 39 is the apostrophe.\<close>

definition not_found_msg :: "pystr \<Rightarrow> pystr" where
  "not_found_msg input_str = lit ''Cannot find a node named '' @ [39] @ input_str @ [39]"


section \<open>The graph collaborator\<close>

text \<open>
  \<^verbatim>\<open>main\<close> uses the class \<^verbatim>\<open>ReachabilityGraph\<close> of \<^verbatim>\<open>lib.core\<close> through its constructor
  and the methods \<^verbatim>\<open>load\<close>, \<^verbatim>\<open>list_nodes\<close> and \<^verbatim>\<open>get_node\<close>, and prints a node with
  \<^verbatim>\<open>repr\<close>. The class is a parameter of the model. A method receives the object's state
  \<open>'g\<close> and returns the state it leaves behind, since a Python method may assign to
  \<^verbatim>\<open>self\<close>:
  \<^item> \<open>load\<close> fills the state from a path, or fails (\<open>None\<close>: the exception leaves \<^verbatim>\<open>main\<close>);
  \<^item> \<open>list_nodes\<close> prints the lines it returns here;
  \<^item> \<open>get_node\<close> returns a node, or \<open>None\<close> where the method raises \<^verbatim>\<open>KeyError\<close>.
\<close>

record ('g, 'n) ReachabilityGraph =
  new_graph :: 'g
  load :: "'g \<Rightarrow> pystr \<Rightarrow> 'g option"
  list_nodes :: "'g \<Rightarrow> pystr \<Rightarrow> pystr list \<times> 'g"
  get_node :: "'g \<Rightarrow> pystr \<Rightarrow> 'n option \<times> 'g"
  repr :: "'n \<Rightarrow> pystr"


section \<open>The query loop\<close>

text \<open>
  What the process does, in order: \<open>Input p\<close> is a call \<^verbatim>\<open>input(p)\<close>, which writes the
  prompt \<open>p\<close>; \<open>Print s\<close> is a line on standard output; the other three are the calls of
  the graph's methods with their argument.
\<close>

datatype event =
    Input pystr
  | Print pystr
  | CallLoad pystr
  | CallListNodes pystr
  | CallGetNode pystr

datatype exn = EOFError | LoadError

text \<open>
  One pass over \<^verbatim>\<open>while input_str != "x": ...\<close> with the line \<open>input_str\<close> in hand:
  \<open>Break\<close> when the loop condition is false, otherwise the events of the branch that
  runs and the graph state it leaves. Each branch of the source ends with
  \<^verbatim>\<open>input_str = input(PROMPT_MSG)\<close>; that read is the next step of \<open>query_loop\<close>.
\<close>

datatype 'g step = Break | Continue "event list" 'g

definition iteration :: "('g, 'n) ReachabilityGraph \<Rightarrow> 'g \<Rightarrow> pystr \<Rightarrow> 'g step" where
  "iteration G graph input_str =
     (if input_str = lit ''x'' then Break
      else if strip input_str = [] then Continue [] graph
      else if startswith input_str (lit ''s '') then
        (case list_nodes G graph (slice_from2 input_str) of
           (printed, graph') \<Rightarrow>
             Continue (CallListNodes (slice_from2 input_str) # map Print printed) graph')
      else
        (case get_node G graph input_str of
           (Some node, graph') \<Rightarrow>
             Continue [CallGetNode input_str, Print (repr G node)] graph'
         | (None, graph') \<Rightarrow>
             Continue [CallGetNode input_str, Print (not_found_msg input_str)] graph'))"

text \<open>
  The result of a run: the events in order, the graph state at the end, the number of
  times the loop body ran, and how the process ended (\<open>Inr ()\<close>: \<^verbatim>\<open>main\<close> returned).
\<close>

record 'g run =
  trace :: "event list"
  graph_state :: 'g
  iterations :: nat
  outcome :: "exn + unit"

text \<open>
  Standard input is the list of the lines still to come; \<^verbatim>\<open>input\<close> at the end of the
  input raises \<^verbatim>\<open>EOFError\<close>, which \<^verbatim>\<open>main\<close> does not catch. Each step is one
  \<^verbatim>\<open>input(PROMPT_MSG)\<close> followed by the loop test and, if it holds, the loop body.
\<close>

fun query_loop :: "('g, 'n) ReachabilityGraph \<Rightarrow> 'g \<Rightarrow> pystr list \<Rightarrow> 'g run" where
  "query_loop G graph [] =
     \<lparr>trace = [Input PROMPT_MSG], graph_state = graph, iterations = 0, outcome = Inl EOFError\<rparr>"
| "query_loop G graph (input_str # stdin) =
     (case iteration G graph input_str of
        Break \<Rightarrow>
          \<lparr>trace = [Input PROMPT_MSG], graph_state = graph, iterations = 0, outcome = Inr ()\<rparr>
      | Continue evs graph' \<Rightarrow>
          (let r = query_loop G graph' stdin
           in r\<lparr>trace := Input PROMPT_MSG # evs @ trace r, iterations := Suc (iterations r)\<rparr>))"



section \<open>Commands\<close>

text \<open>
  The four things one pass of the loop can do, named as the tool's description names
  them. \<open>classify\<close> reads off which branch of \<open>iteration\<close> a line takes, in the order of
  the source's tests; \<open>dispatch\<close> is what that branch does.
\<close>

datatype Command = Empty | Exit | Search pystr | Lookup pystr

definition classify :: "pystr \<Rightarrow> Command" where
  "classify input_str =
     (if input_str = lit ''x'' then Exit
      else if strip input_str = [] then Empty
      else if startswith input_str (lit ''s '') then Search (slice_from2 input_str)
      else Lookup input_str)"

fun dispatch :: "('g, 'n) ReachabilityGraph \<Rightarrow> 'g \<Rightarrow> Command \<Rightarrow> 'g step" where
  "dispatch G graph Exit = Break"
| "dispatch G graph Empty = Continue [] graph"
| "dispatch G graph (Search t) =
     (case list_nodes G graph t of
        (printed, graph') \<Rightarrow> Continue (CallListNodes t # map Print printed) graph')"
| "dispatch G graph (Lookup name) =
     (case get_node G graph name of
        (Some node, graph') \<Rightarrow> Continue [CallGetNode name, Print (repr G node)] graph'
      | (None, graph') \<Rightarrow> Continue [CallGetNode name, Print (not_found_msg name)] graph')"

text \<open>
  The classifier as the design document words it (rule order of its section 4.1, first
  match wins): trimmed string empty, trimmed string equal to the exit sentinel, raw string
  starting with the search prefix, otherwise a lookup of the raw string. It is compared
  with \<open>classify\<close>, which follows the source.
\<close>

definition spec_classify :: "pystr \<Rightarrow> Command" where
  "spec_classify input_str =
     (if strip input_str = [] then Empty
      else if strip input_str = lit ''x'' then Exit
      else if startswith input_str (lit ''s '') then Search (slice_from2 input_str)
      else Lookup input_str)"


section \<open>Observations on steps and traces\<close>

fun graph_after :: "'g \<Rightarrow> 'g step \<Rightarrow> 'g" where
  "graph_after graph Break = graph"
| "graph_after graph (Continue evs graph') = graph'"

fun step_events :: "'g step \<Rightarrow> event list" where
  "step_events Break = []"
| "step_events (Continue evs graph') = evs"



fun is_query :: "event \<Rightarrow> bool" where
  "is_query (CallListNodes t) = True"
| "is_query (CallGetNode n) = True"
| "is_query e = False"

text \<open>How many of the conditions in a list hold.\<close>

definition count_true :: "bool list \<Rightarrow> nat" where
  "count_true bs = length (filter (\<lambda>b. b) bs)"

text \<open>
  The contract of the collaborator's two query methods: they leave the object's state as
  they found it.
\<close>

definition read_only :: "('g, 'n) ReachabilityGraph \<Rightarrow> bool" where
  "read_only G \<longleftrightarrow>
     (\<forall>g t. snd (list_nodes G g t) = g) \<and> (\<forall>g name. snd (get_node G g name) = g)"

text \<open>
  Two graph implementations behave identically from related states when \<open>list_nodes\<close>
  prints the same lines, \<open>get_node\<close> fails for the same names and returns nodes with the
  same \<open>repr\<close>, and the states they leave are related again.
\<close>

definition behave_identically ::
  "('g \<Rightarrow> 'h \<Rightarrow> bool) \<Rightarrow> ('g, 'n) ReachabilityGraph \<Rightarrow> ('h, 'm) ReachabilityGraph \<Rightarrow> bool" where
  "behave_identically R G H \<longleftrightarrow>
     (\<forall>g h. R g h \<longrightarrow>
        (\<forall>t. fst (list_nodes G g t) = fst (list_nodes H h t) \<and>
             R (snd (list_nodes G g t)) (snd (list_nodes H h t))) \<and>
        (\<forall>name. map_option (repr G) (fst (get_node G g name)) =
                  map_option (repr H) (fst (get_node H h name)) \<and>
             R (snd (get_node G g name)) (snd (get_node H h name))))"


text \<open>
  Two passes of the loop, over two graph implementations, look the same: both leave the
  loop, or both go on after the same events, in related states.
\<close>

fun same_step :: "('g \<Rightarrow> 'h \<Rightarrow> bool) \<Rightarrow> 'g step \<Rightarrow> 'h step \<Rightarrow> bool" where
  "same_step R Break Break \<longleftrightarrow> True"
| "same_step R (Continue evs g) (Continue evs' h) \<longleftrightarrow> evs = evs' \<and> R g h"
| "same_step R a b \<longleftrightarrow> False"


section \<open>Two small graph implementations\<close>

text \<open>
  A graph with the nodes \<open>A\<close> and \<open>B\<close>, kept as an association list from a node's name to
  its rendering, and a second implementation of the same graph that also counts the
  queries it answers, so that its state changes with every call.
\<close>

fun contains :: "pystr \<Rightarrow> pystr \<Rightarrow> bool" where
  "contains t [] \<longleftrightarrow> t = []"
| "contains t (c # s) \<longleftrightarrow> startswith (c # s) t \<or> contains t s"

definition fake_graph :: "(pystr \<times> pystr) list" where
  "fake_graph = [(lit ''A'', lit ''A <- B''), (lit ''B'', lit ''B -> A'')]"

definition fake_store :: "((pystr \<times> pystr) list, pystr) ReachabilityGraph" where
  "fake_store =
     \<lparr>new_graph = [],
      load = (\<lambda>g path. if path = lit ''graph.txt'' then Some fake_graph else None),
      list_nodes = (\<lambda>g t. (filter (contains t) (map fst g), g)),
      get_node = (\<lambda>g name. (map_of g name, g)),
      repr = (\<lambda>node. node)\<rparr>"

definition counting_store :: "((pystr \<times> pystr) list \<times> nat, pystr) ReachabilityGraph" where
  "counting_store =
     \<lparr>new_graph = ([], 0),
      load = (\<lambda>g path. if path = lit ''graph.txt'' then Some (fake_graph, 0) else None),
      list_nodes = (\<lambda>g t. (filter (contains t) (map fst (fst g)), (fst g, Suc (snd g)))),
      get_node = (\<lambda>g name. (map_of (fst g) name, (fst g, Suc (snd g)))),
      repr = (\<lambda>node. node)\<rparr>"


section \<open>Facts about strings\<close>

lemma lit_x: "lit ''x'' = [120]"
  by (simp add: lit_def)

lemma lit_s_space: "lit ''s '' = [115, 32]"
  by (simp add: lit_def)

lemma isspace_facts: "\<not> isspace 120" "\<not> isspace 115" "isspace 32"
  by (simp_all add: isspace_def)

lemma lstrip_empty_iff: "lstrip s = [] \<longleftrightarrow> (\<forall>c \<in> set s. isspace c)"
  by (simp add: lstrip_def)

lemma rstrip_empty_iff: "rstrip s = [] \<longleftrightarrow> (\<forall>c \<in> set s. isspace c)"
  by (simp add: rstrip_def)

lemma lstrip_head: "lstrip s \<noteq> [] \<Longrightarrow> \<not> isspace (hd (lstrip s))"
  unfolding lstrip_def by (rule hd_dropWhile)

lemma strip_empty_iff: "strip s = [] \<longleftrightarrow> (\<forall>c \<in> set s. isspace c)"
proof
  assume "strip s = []"
  then have all: "\<forall>c \<in> set (lstrip s). isspace c"
    by (simp add: strip_def rstrip_empty_iff)
  have "lstrip s = []"
  proof (rule ccontr)
    assume ne: "lstrip s \<noteq> []"
    then have "\<not> isspace (hd (lstrip s))" by (rule lstrip_head)
    moreover have "hd (lstrip s) \<in> set (lstrip s)" using ne by simp
    ultimately show False using all by blast
  qed
  then show "\<forall>c \<in> set s. isspace c" by (simp add: lstrip_empty_iff)
next
  assume "\<forall>c \<in> set s. isspace c"
  then have "lstrip s = []" by (simp add: lstrip_empty_iff)
  then show "strip s = []" by (simp add: strip_def rstrip_def)
qed

lemma startswith_s_iff: "startswith s (lit ''s '') \<longleftrightarrow> (\<exists>rest. s = 115 # 32 # rest)"
proof
  assume "startswith s (lit ''s '')"
  then have t: "take (Suc (Suc 0)) s = [115, 32]" by (simp add: startswith_def lit_s_space)
  show "\<exists>rest. s = 115 # 32 # rest"
  proof (cases s)
    case Nil
    with t show ?thesis by simp
  next
    case (Cons a s')
    with t show ?thesis by (cases s') simp_all
  qed
next
  assume "\<exists>rest. s = 115 # 32 # rest"
  then show "startswith s (lit ''s '')" by (auto simp: startswith_def lit_s_space)
qed

lemma dropWhile_snoc: "\<not> P c \<Longrightarrow> \<exists>ys. dropWhile P (xs @ [c]) = ys @ [c]"
  by (induction xs) auto

lemma strip_keeps_head:
  assumes "\<not> isspace c"
  shows "\<exists>t. strip (c # s) = c # t"
proof -
  obtain ys where "dropWhile isspace (rev s @ [c]) = ys @ [c]"
    using dropWhile_snoc [of isspace c "rev s"] assms by blast
  then have "rstrip (c # s) = c # rev ys" by (simp add: rstrip_def)
  moreover have "lstrip (c # s) = c # s" using assms by (simp add: lstrip_def)
  ultimately show ?thesis by (simp add: strip_def)
qed

lemma startswith_s_strip: "startswith s (lit ''s '') \<Longrightarrow> \<exists>t. strip s = 115 # t"
  using strip_keeps_head [of 115] by (auto simp: startswith_s_iff isspace_facts)

section \<open>Facts about one pass of the loop\<close>

lemma iteration_dispatch: "iteration G graph input_str = dispatch G graph (classify input_str)"
  by (simp add: iteration_def classify_def)




lemma strip_x_not_search:
  assumes "strip s = lit ''x''"
  shows "\<not> startswith s (lit ''s '')"
proof
  assume "startswith s (lit ''s '')"
  then obtain t where "strip s = 115 # t" using startswith_s_strip by blast
  with assms show False by (simp add: lit_x)
qed

lemma search_not_empty: "startswith s (lit ''s '') \<Longrightarrow> strip s \<noteq> []"
  using startswith_s_strip [of s] by auto

lemma search_not_exit: "startswith s (lit ''s '') \<Longrightarrow> s \<noteq> lit ''x''"
  by (auto simp: startswith_s_iff lit_x)

lemma exit_not_empty: "strip (lit ''x'') \<noteq> []"
  by (simp add: strip_empty_iff lit_x isspace_facts)

lemma classify_search:
  "startswith s (lit ''s '') \<Longrightarrow> classify s = Search (slice_from2 s)"
  by (simp add: classify_def search_not_empty search_not_exit)

lemma classify_empty: "strip s = [] \<Longrightarrow> classify s = Empty"
  using exit_not_empty by (auto simp: classify_def)


section \<open>The exit command\<close>

text \<open>
  C1, as the design document states it: every line whose trimmed form is \<open>x\<close>, also one
  with surrounding whitespace such as \<open>" x "\<close>, is classified as Exit and ends the loop.
  The source compares the raw line with \<open>"x"\<close> before any trimming, so the line \<open>" x "\<close>
  passes the loop test, is not blank and does not start with \<open>"s "\<close>: it is looked up
  under its raw name and the loop goes on. The document's own classifier would answer Exit.
\<close>

theorem exit_trimmed_counterexample:
  "strip (lit '' x '') = lit ''x'' \<and>
   classify (lit '' x '') \<noteq> Exit \<and>
   iteration fake_store fake_graph (lit '' x '') \<noteq> Break \<and>
   classify (lit '' x '') = Lookup (lit '' x '') \<and>
   spec_classify (lit '' x '') = Exit"
  by (simp add: classify_def spec_classify_def iteration_def strip_def lstrip_def rstrip_def
      isspace_def lit_def startswith_def fake_store_def fake_graph_def)

text \<open>
  C1, amended: among the lines whose trimmed form is \<open>x\<close>, the classifier yields Exit and
  the loop ends exactly for the raw line \<open>x\<close>; any other such line (one with surrounding
  whitespace) is a lookup of the raw line.
\<close>

theorem exit_only_raw_x:
  assumes "strip input_str = lit ''x''"
  shows "(classify input_str = Exit \<longleftrightarrow> input_str = lit ''x'') \<and>
         (iteration G graph input_str = Break \<longleftrightarrow> input_str = lit ''x'') \<and>
         (input_str \<noteq> lit ''x'' \<longrightarrow> classify input_str = Lookup input_str)"
proof -
  have ne: "strip input_str \<noteq> []" using assms by (simp add: lit_x)
  have ns: "\<not> startswith input_str (lit ''s '')" using assms by (rule strip_x_not_search)
  have c: "classify input_str = (if input_str = lit ''x'' then Exit else Lookup input_str)"
    using ne ns by (simp add: classify_def)
  show ?thesis unfolding iteration_dispatch c
    by (auto split: prod.splits option.splits)
qed

theorem exit_only_raw_x_witness:
  "strip (lit ''x'') = lit ''x'' \<and> strip [9, 120, 32] = lit ''x'' \<and>
   classify (lit ''x'') = Exit \<and> iteration fake_store fake_graph (lit ''x'') = Break \<and>
   classify [9, 120, 32] = Lookup [9, 120, 32] \<and>
   iteration fake_store fake_graph [9, 120, 32] \<noteq> Break"
proof -
  have a: "strip (lit ''x'') = lit ''x''"
    by (simp add: strip_def lstrip_def rstrip_def isspace_def lit_def)
  have b: "strip [9, 120, 32] = lit ''x''"
    by (simp add: strip_def lstrip_def rstrip_def isspace_def lit_def)
  have n: "[9, 120, 32] \<noteq> lit ''x''" by (simp add: lit_def)
  show ?thesis
    using exit_only_raw_x [OF a, of fake_store fake_graph]
      exit_only_raw_x [OF b, of fake_store fake_graph] a b n
    by simp
qed



section \<open>Blank lines\<close>

text \<open>
  C3: for a line that is empty or holds only whitespace, one pass of the loop calls
  neither \<open>list_nodes\<close> nor \<open>get_node\<close>, prints nothing, leaves the graph as it is, does
  not end the loop, and goes back to the prompt.
\<close>

theorem whitespace_line_reprompts:
  assumes "\<forall>c \<in> set input_str. isspace c"
  shows "classify input_str = Empty \<and>
         iteration G graph input_str = Continue [] graph \<and>
         query_loop G graph (input_str # stdin) =
           (query_loop G graph stdin)
             \<lparr>trace := Input PROMPT_MSG # trace (query_loop G graph stdin),
              iterations := Suc (iterations (query_loop G graph stdin))\<rparr>"
proof -
  have "strip input_str = []" using assms by (simp add: strip_empty_iff)
  then have c: "classify input_str = Empty" by (rule classify_empty)
  then have i: "iteration G graph input_str = Continue [] graph"
    by (simp add: iteration_dispatch)
  show ?thesis using c i by (simp add: Let_def)
qed

theorem whitespace_line_reprompts_witness:
  "isspace 32 \<and> isspace 9 \<and> isspace 12288 \<and>
   classify [32, 9, 12288] = Empty \<and>
   iteration fake_store fake_graph [32, 9, 12288] = Continue [] fake_graph \<and>
   iteration fake_store fake_graph [] = Continue [] fake_graph"
  using whitespace_line_reprompts [of "[32, 9, 12288]" fake_store fake_graph "[]"]
    whitespace_line_reprompts [of "[]" fake_store fake_graph "[]"]
  by (simp add: isspace_def)


section \<open>Searching\<close>

text \<open>
  C4: a line whose raw form starts with \<open>s\<close> and a space is never the exit line; the loop
  calls \<open>list_nodes\<close> with the rest of the line after these two characters, unchanged,
  prints what that call prints, calls no \<open>get_node\<close>, and goes on. A line that starts
  with a whitespace character does not start with the prefix and is no search.
\<close>

theorem search_prefix_verbatim:
  "(startswith input_str (lit ''s '') \<longrightarrow>
      input_str \<noteq> lit ''x'' \<and>
      input_str = lit ''s '' @ slice_from2 input_str \<and>
      classify input_str = Search (slice_from2 input_str) \<and>
      iteration G graph input_str =
        Continue (CallListNodes (slice_from2 input_str) #
                  map Print (fst (list_nodes G graph (slice_from2 input_str))))
                 (snd (list_nodes G graph (slice_from2 input_str)))) \<and>
   (isspace c \<longrightarrow>
      \<not> startswith (c # rest) (lit ''s '') \<and> classify (c # rest) \<noteq> Search t)"
proof (intro conjI impI)
  assume s: "startswith input_str (lit ''s '')"
  show "input_str \<noteq> lit ''x''" using s by (rule search_not_exit)
  from s obtain r where "input_str = 115 # 32 # r" using startswith_s_iff by blast
  then show "input_str = lit ''s '' @ slice_from2 input_str"
    by (simp add: lit_s_space slice_from2_def)
  show c: "classify input_str = Search (slice_from2 input_str)" using s by (rule classify_search)
  show "iteration G graph input_str =
        Continue (CallListNodes (slice_from2 input_str) #
                  map Print (fst (list_nodes G graph (slice_from2 input_str))))
                 (snd (list_nodes G graph (slice_from2 input_str)))"
    by (simp add: iteration_dispatch c split: prod.splits)
next
  assume w: "isspace c"
  show n: "\<not> startswith (c # rest) (lit ''s '')"
    using w isspace_facts by (auto simp: startswith_s_iff)
  show "classify (c # rest) \<noteq> Search t" using n by (simp add: classify_def)
qed

theorem search_prefix_verbatim_witness:
  "startswith (lit ''s  Foo '') (lit ''s '') \<and> isspace 32 \<and>
   iteration fake_store fake_graph (lit ''s  Foo '') =
     Continue [CallListNodes (lit '' Foo '')] fake_graph \<and>
   classify (lit '' s Foo'') = Lookup (lit '' s Foo'')"
proof -
  have s: "startswith (lit ''s  Foo '') (lit ''s '')" by (simp add: startswith_def lit_def)
  have w: "isspace 32" by (simp add: isspace_def)
  have l: "classify (lit '' s Foo'') = Lookup (lit '' s Foo'')"
    by (simp add: classify_def strip_empty_iff startswith_def lit_def isspace_def)
  show ?thesis
    using search_prefix_verbatim [of "lit ''s  Foo ''" fake_store fake_graph 32 "lit ''s Foo''" "lit ''Foo''"] s w l
    by (simp add: fake_store_def fake_graph_def slice_from2_def lit_def startswith_def)
qed


section \<open>Looking a node up\<close>

lemma classify_lookup:
  "input_str \<noteq> lit ''x'' \<Longrightarrow> strip input_str \<noteq> [] \<Longrightarrow> \<not> startswith input_str (lit ''s '')
   \<Longrightarrow> classify input_str = Lookup input_str"
  by (simp add: classify_def)


text \<open>
  C5: a line that is not \<open>x\<close>, is not blank and does not start with \<open>s\<close> and a space
  reaches \<open>get_node\<close>, and the key is the raw line as read, not a trimmed copy: the line
  \<open>" A "\<close> is looked up with its two spaces and is not found in a graph that has \<open>A\<close>.
\<close>

theorem lookup_uses_raw_line:
  assumes "input_str \<noteq> lit ''x''" and "strip input_str \<noteq> []"
    and "\<not> startswith input_str (lit ''s '')"
  shows "classify input_str = Lookup input_str \<and>
         iteration G graph input_str =
           Continue [CallGetNode input_str,
                     Print (case fst (get_node G graph input_str) of
                              Some node \<Rightarrow> repr G node
                            | None \<Rightarrow> not_found_msg input_str)]
                    (snd (get_node G graph input_str))"
proof -
  have c: "classify input_str = Lookup input_str" using assms by (rule classify_lookup)
  show ?thesis
    by (simp add: iteration_dispatch c split: prod.splits option.splits)
qed

theorem lookup_uses_raw_line_witness:
  "lit '' A '' \<noteq> lit ''x'' \<and> strip (lit '' A '') \<noteq> [] \<and>
   \<not> startswith (lit '' A '') (lit ''s '') \<and>
   strip (lit '' A '') = lit ''A'' \<and>
   classify (lit '' A '') = Lookup (lit '' A '') \<and>
   iteration fake_store fake_graph (lit '' A '') =
     Continue [CallGetNode (lit '' A ''), Print (not_found_msg (lit '' A ''))] fake_graph"
proof -
  have a: "lit '' A '' \<noteq> lit ''x''" by (simp add: lit_def)
  have s: "strip (lit '' A '') = lit ''A''"
    by (simp add: strip_def lstrip_def rstrip_def isspace_def lit_def)
  then have b: "strip (lit '' A '') \<noteq> []" by (simp add: lit_def)
  have c: "\<not> startswith (lit '' A '') (lit ''s '')" by (simp add: startswith_def lit_def)
  have g: "get_node fake_store fake_graph (lit '' A '') = (None, fake_graph)"
    by (simp add: fake_store_def fake_graph_def lit_def)
  show ?thesis
    using lookup_uses_raw_line [OF a b c, of fake_store fake_graph] a b c s g by simp
qed



text \<open>
  C9: the line \<open>s\<close> alone, and a line that starts with \<open>s\<close> followed by anything but a
  space (\<open>search\<close>, or \<open>s\<close> and a tab), is no search: it is a lookup of the whole raw
  line.
\<close>

theorem s_without_space_is_lookup:
  "classify (lit ''s'') = Lookup (lit ''s'') \<and>
   iteration G graph (lit ''s'') = dispatch G graph (Lookup (lit ''s'')) \<and>
   classify (lit ''search'') = Lookup (lit ''search'') \<and>
   (c \<noteq> 32 \<longrightarrow>
      classify (115 # c # rest) = Lookup (115 # c # rest) \<and>
      iteration G graph (115 # c # rest) = dispatch G graph (Lookup (115 # c # rest)))"
proof -
  have s: "classify (lit ''s'') = Lookup (lit ''s'')"
    by (simp add: classify_def strip_def lstrip_def rstrip_def isspace_def lit_def startswith_def)
  have w: "classify (lit ''search'') = Lookup (lit ''search'')"
    by (simp add: classify_def strip_def lstrip_def rstrip_def isspace_def lit_def startswith_def)
  have g: "classify (115 # c # rest) = Lookup (115 # c # rest)" if "c \<noteq> 32"
  proof (rule classify_lookup)
    show "115 # c # rest \<noteq> lit ''x''" by (simp add: lit_x)
    show "strip (115 # c # rest) \<noteq> []" by (simp add: strip_empty_iff isspace_facts)
    show "\<not> startswith (115 # c # rest) (lit ''s '')" using that by (simp add: startswith_s_iff)
  qed
  show ?thesis using s w g by (simp add: iteration_dispatch)
qed

theorem s_without_space_is_lookup_witness:
  "(9::nat) \<noteq> 32 \<and> classify (115 # 9 # lit ''Foo'') = Lookup (115 # 9 # lit ''Foo'') \<and>
   iteration fake_store fake_graph (lit ''search'') =
     Continue [CallGetNode (lit ''search''), Print (not_found_msg (lit ''search''))] fake_graph \<and>
   iteration fake_store fake_graph (lit ''s'') =
     Continue [CallGetNode (lit ''s''), Print (not_found_msg (lit ''s''))] fake_graph"
proof -
  have e: "lit ''search'' = 115 # 101 # lit ''arch''" by (simp add: lit_def)
  have g: "get_node fake_store fake_graph (lit ''search'') = (None, fake_graph)"
      "get_node fake_store fake_graph (lit ''s'') = (None, fake_graph)"
    by (simp_all add: fake_store_def fake_graph_def lit_def)
  show ?thesis
    using s_without_space_is_lookup [of fake_store fake_graph 9 "lit ''Foo''"]
      s_without_space_is_lookup [of fake_store fake_graph 101 "lit ''arch''"] e g
    by simp
qed


section \<open>The classification is total and deterministic\<close>

lemma dispatch_queries: "length (filter is_query (step_events (dispatch G graph c))) \<le> 1"
  by (cases c) (auto split: prod.splits option.splits simp: filter_map comp_def)

text \<open>
  C7: of the four conditions (the raw line is \<open>x\<close>; the trimmed line is empty; the raw
  line starts with \<open>s\<close> and a space; none of these) exactly one holds for every line,
  whatever the order of the tests, and \<open>classify\<close> returns the matching command. The
  classification consists of total string operations and has no error result. One pass of
  the loop does what \<open>dispatch\<close> does for that one command, and calls the graph at most
  once.
\<close>

theorem classification_total_deterministic:
  "count_true [input_str = lit ''x'', strip input_str = [], startswith input_str (lit ''s ''),
               input_str \<noteq> lit ''x'' \<and> strip input_str \<noteq> [] \<and>
               \<not> startswith input_str (lit ''s '')] = 1 \<and>
   (classify input_str = Exit \<longleftrightarrow> input_str = lit ''x'') \<and>
   (classify input_str = Empty \<longleftrightarrow> strip input_str = []) \<and>
   (classify input_str = Search (slice_from2 input_str) \<longleftrightarrow> startswith input_str (lit ''s '')) \<and>
   (classify input_str = Lookup input_str \<longleftrightarrow>
      input_str \<noteq> lit ''x'' \<and> strip input_str \<noteq> [] \<and> \<not> startswith input_str (lit ''s '')) \<and>
   classify input_str \<in> {Exit, Empty, Search (slice_from2 input_str), Lookup input_str} \<and>
   iteration G graph input_str = dispatch G graph (classify input_str) \<and>
   length (filter is_query (step_events (iteration G graph input_str))) \<le> 1"
proof -
  have xe: "strip input_str \<noteq> []" if "input_str = lit ''x''"
    using that exit_not_empty by simp
  have xs: "\<not> startswith input_str (lit ''s '')" if "input_str = lit ''x''"
    using that search_not_exit by blast
  have es: "\<not> startswith input_str (lit ''s '')" if "strip input_str = []"
    using that search_not_empty by blast
  have cnt: "count_true [input_str = lit ''x'', strip input_str = [], startswith input_str (lit ''s ''),
               input_str \<noteq> lit ''x'' \<and> strip input_str \<noteq> [] \<and>
               \<not> startswith input_str (lit ''s '')] = 1"
    using xe xs es by (auto simp: count_true_def)
  have c: "classify input_str =
      (if input_str = lit ''x'' then Exit
       else if strip input_str = [] then Empty
       else if startswith input_str (lit ''s '') then Search (slice_from2 input_str)
       else Lookup input_str)"
    by (simp add: classify_def)
  have iffs: "(classify input_str = Exit \<longleftrightarrow> input_str = lit ''x'')"
    "(classify input_str = Empty \<longleftrightarrow> strip input_str = [])"
    "(classify input_str = Search (slice_from2 input_str) \<longleftrightarrow> startswith input_str (lit ''s ''))"
    "(classify input_str = Lookup input_str \<longleftrightarrow>
      input_str \<noteq> lit ''x'' \<and> strip input_str \<noteq> [] \<and> \<not> startswith input_str (lit ''s ''))"
    "classify input_str \<in> {Exit, Empty, Search (slice_from2 input_str), Lookup input_str}"
    using xe xs es unfolding c by auto
  show ?thesis
    using cnt iffs dispatch_queries [of G graph "classify input_str"]
    by (simp add: iteration_dispatch)
qed

theorem classification_total_deterministic_witness:
  "classify (lit ''x'') = Exit \<and> classify (lit ''  '') = Empty \<and>
   classify (lit ''s A'') = Search (lit ''A'') \<and> classify (lit ''A'') = Lookup (lit ''A'') \<and>
   iteration fake_store fake_graph (lit ''s A'') =
     Continue [CallListNodes (lit ''A''), Print (lit ''A'')] fake_graph"
proof -
  have a: "strip (lit ''  '') = []" "startswith (lit ''s A'') (lit ''s '')"
    "slice_from2 (lit ''s A'') = lit ''A''"
    "lit ''A'' \<noteq> lit ''x''" "strip (lit ''A'') \<noteq> []" "\<not> startswith (lit ''A'') (lit ''s '')"
    by (simp_all add: strip_def lstrip_def rstrip_def isspace_def lit_def startswith_def slice_from2_def)
  have l: "list_nodes fake_store fake_graph (lit ''A'') = ([lit ''A''], fake_graph)"
    by (simp add: fake_store_def fake_graph_def lit_def startswith_def)
  show ?thesis
    using classification_total_deterministic [of "lit ''x''" fake_store fake_graph]
      classification_total_deterministic [of "lit ''  ''" fake_store fake_graph]
      classification_total_deterministic [of "lit ''s A''" fake_store fake_graph]
      classification_total_deterministic [of "lit ''A''" fake_store fake_graph] a l
    by simp
qed


section \<open>The graph state\<close>


lemma dispatch_read_only:
  "read_only G \<Longrightarrow> graph_after graph (dispatch G graph c) = graph"
proof (cases c)
  case (Search t)
  assume "read_only G"
  then have "snd (list_nodes G graph t) = graph" by (simp add: read_only_def)
  then show ?thesis using Search by (auto split: prod.splits)
next
  case (Lookup name)
  assume "read_only G"
  then have "snd (get_node G graph name) = graph" by (simp add: read_only_def)
  then show ?thesis using Lookup by (auto split: prod.splits option.splits)
qed simp_all


lemma query_loop_read_only:
  "read_only G \<Longrightarrow> graph_state (query_loop G graph stdin) = graph"
proof (induction stdin arbitrary: graph)
  case Nil
  show ?case by simp
next
  case (Cons input_str stdin)
  show ?case
  proof (cases "iteration G graph input_str")
    case Break
    then show ?thesis by simp
  next
    case (Continue evs graph')
    then have "graph' = graph"
      using dispatch_read_only [OF Cons.prems, of graph "classify input_str"]
      by (simp add: iteration_dispatch)
    then show ?thesis using Continue Cons.IH [OF Cons.prems, of graph] by (simp add: Let_def)
  qed
qed








section \<open>Determinism of a session\<close>

lemma dispatch_same_step:
  assumes "behave_identically R G H" and "R g h"
  shows "same_step R (dispatch G g c) (dispatch H h c)"
proof (cases c)
  case (Search t)
  have "fst (list_nodes G g t) = fst (list_nodes H h t)"
    and "R (snd (list_nodes G g t)) (snd (list_nodes H h t))"
    using assms unfolding behave_identically_def by blast+
  then show ?thesis using Search by (auto split: prod.splits)
next
  case (Lookup name)
  have "map_option (repr G) (fst (get_node G g name)) = map_option (repr H) (fst (get_node H h name))"
    and "R (snd (get_node G g name)) (snd (get_node H h name))"
    using assms unfolding behave_identically_def by blast+
  then show ?thesis using Lookup by (auto split: prod.splits option.splits)
qed (simp_all add: assms)

lemma query_loop_same:
  assumes "behave_identically R G H"
  shows "R g h \<Longrightarrow>
         trace (query_loop G g stdin) = trace (query_loop H h stdin) \<and>
         iterations (query_loop G g stdin) = iterations (query_loop H h stdin) \<and>
         outcome (query_loop G g stdin) = outcome (query_loop H h stdin)"
proof (induction stdin arbitrary: g h)
  case Nil
  show ?case by simp
next
  case (Cons input_str stdin)
  have s: "same_step R (iteration G g input_str) (iteration H h input_str)"
    using dispatch_same_step [OF assms Cons.prems] by (simp add: iteration_dispatch)
  show ?case
  proof (cases "iteration G g input_str")
    case Break
    then have "iteration H h input_str = Break"
      using s by (cases "iteration H h input_str") simp_all
    with Break show ?thesis by simp
  next
    case (Continue evs g')
    then obtain h' where h: "iteration H h input_str = Continue evs h'" and r: "R g' h'"
      using s by (cases "iteration H h input_str") simp_all
    show ?thesis using Continue h Cons.IH [OF r] by (simp add: Let_def)
  qed
qed

text \<open>
  C10: two runs of the loop over the same input lines, on graphs whose \<open>list_nodes\<close> and
  \<open>get_node\<close> behave identically, produce the same events (prompts, printed lines and
  calls) in the same order, run the loop body the same number of times, and end the same
  way. The two graphs may be different implementations with different states.
\<close>

theorem session_deterministic:
  assumes "behave_identically R G H" and "R g h"
  shows "trace (query_loop G g stdin) = trace (query_loop H h stdin) \<and>
         iterations (query_loop G g stdin) = iterations (query_loop H h stdin) \<and>
         outcome (query_loop G g stdin) = outcome (query_loop H h stdin)"
  using assms by (rule query_loop_same)

lemma fake_counting_identical:
  "behave_identically (\<lambda>g h. fst h = g) fake_store counting_store"
  by (simp add: behave_identically_def fake_store_def counting_store_def)

theorem session_deterministic_witness:
  "behave_identically (\<lambda>g h. fst h = g) fake_store counting_store \<and>
   fst (fake_graph, 0::nat) = fake_graph \<and>
   trace (query_loop fake_store fake_graph [lit ''s A'', lit ''A'', lit ''Z'', lit ''x'']) =
   trace (query_loop counting_store (fake_graph, 0) [lit ''s A'', lit ''A'', lit ''Z'', lit ''x'']) \<and>
   iterations (query_loop counting_store (fake_graph, 0) [lit ''s A'', lit ''A'', lit ''Z'', lit ''x'']) =
   iterations (query_loop fake_store fake_graph [lit ''s A'', lit ''A'', lit ''Z'', lit ''x'']) \<and>
   graph_state (query_loop counting_store (fake_graph, 0) [lit ''s A'', lit ''A'', lit ''Z'', lit ''x'']) \<noteq>
   (fake_graph, 0)"
proof -
  have r: "(\<lambda>g h. fst h = g) fake_graph (fake_graph, 0::nat)" by simp
  have st: "graph_state (query_loop counting_store (fake_graph, 0) [lit ''s A'', lit ''A'', lit ''Z'', lit ''x'']) = (fake_graph, 3)"
    by (simp add: iteration_def strip_def lstrip_def rstrip_def isspace_def lit_def startswith_def
        counting_store_def fake_graph_def slice_from2_def Let_def)
  show ?thesis
    using session_deterministic [OF fake_counting_identical r, of "[lit ''s A'', lit ''A'', lit ''Z'', lit ''x'']"]
      fake_counting_identical st
    by simp
qed

end
